theory Spec2Isabelle
  imports Complex_Main
begin

section \<open>Data model\<close>

text \<open>
  A labeling is a one-dimensional integer array, one label per sample. Python integers are
  unbounded, so labels are \<open>int\<close>. The cost matrix is a list of rows; its entries are the
  quotients \<open>(nobs - n_intersec) / nobs\<close> of two integers, kept exact as rationals.
\<close>

type_synonym labeling = "int list"

type_synonym matrix = "rat list list"

text \<open>
  The two arguments of the label matcher are arbitrary Python objects. The integer arrays
  are modelled by their dimension: \<open>Ndarray\<close> is a one-dimensional array of class
  \<^verbatim>\<open>numpy.ndarray\<close>, \<open>Ndarray0d\<close> a zero-dimensional one, \<open>Ndarray2d\<close> a two-dimensional one
  given by its rows, and \<open>SubArray\<close> a one-dimensional instance of a subclass of
  \<^verbatim>\<open>numpy.ndarray\<close> that inherits all operations, with the name of its class. Of any other
  object only the type name matters. Arrays of more dimensions, of other element types, and
  subclasses that redefine operations are outside the model.
\<close>

datatype pyobj =
    Ndarray labeling
  | Ndarray0d int
  | Ndarray2d "int list list"
  | SubArray string labeling
  | NotArray string

datatype py_error = TypeError string | ValueError | IndexError

text \<open>\<^verbatim>\<open>isinstance(x, np.ndarray)\<close>\<close>

fun is_ndarray :: "pyobj \<Rightarrow> bool" where
  "is_ndarray (NotArray _) = False"
| "is_ndarray _ = True"

text \<open>\<^verbatim>\<open>type(x)\<close>, by name.\<close>

fun type_name :: "pyobj \<Rightarrow> string" where
  "type_name (SubArray n _) = n"
| "type_name (NotArray n) = n"
| "type_name _ = ''numpy.ndarray''"

text \<open>How Python prints a type inside an f-string: \<^verbatim>\<open><class 'name'>\<close>.\<close>

definition type_repr :: "pyobj \<Rightarrow> string" where
  "type_repr x = ''<class '' @ [CHR 0x27] @ type_name x @ [CHR 0x27] @ ''>''"

definition type_error_message :: "pyobj \<Rightarrow> pyobj \<Rightarrow> string" where
  "type_error_message t p =
     ''input variables should be (np.ndarray, np.ndarray) not ('' @ type_repr t @ '', ''
       @ type_repr p @ '')''"

section \<open>The cost matrix\<close>

text \<open>
  \<^verbatim>\<open>np.transpose(np.argwhere(xs == v))[0]\<close>: the positions of \<open>xs\<close> that hold \<open>v\<close>,
  in increasing order.
\<close>

definition argwhere_eq :: "labeling \<Rightarrow> int \<Rightarrow> nat list" where
  "argwhere_eq xs v = filter (\<lambda>s. xs ! s = v) [0..<length xs]"

text \<open>
  \<^verbatim>\<open>len(set(argwhere(true_lab == lab)).intersection(set(argwhere(pred_lab == plab))))\<close>
\<close>

definition n_intersec :: "labeling \<Rightarrow> labeling \<Rightarrow> nat \<Rightarrow> nat \<Rightarrow> nat" where
  "n_intersec true_lab pred_lab lab plab =
     card (set (argwhere_eq true_lab (int lab)) \<inter> set (argwhere_eq pred_lab (int plab)))"

text \<open>\<^verbatim>\<open>w = (nobs - n_intersec) / nobs\<close>, a subtraction of Python integers.\<close>

definition weight :: "nat \<Rightarrow> nat \<Rightarrow> rat" where
  "weight nobs k = (of_nat nobs - of_nat k) / of_nat nobs"

text \<open>\<^verbatim>\<open>wmat[i, j] = w\<close>; the loops only write inside the matrix.\<close>

definition put :: "matrix \<Rightarrow> nat \<Rightarrow> nat \<Rightarrow> rat \<Rightarrow> matrix" where
  "put wmat i j w = wmat[i := (wmat ! i)[j := w]]"

text \<open>
  The body of the inner loop: one entry on the diagonal, two entries off it (the entry
  \<open>[lab, plab]\<close> and the cross term \<open>[plab, lab]\<close>).
\<close>

definition cell_step :: "labeling \<Rightarrow> labeling \<Rightarrow> nat \<Rightarrow> nat \<Rightarrow> matrix \<Rightarrow> matrix" where
  "cell_step true_lab pred_lab lab plab wmat =
     (let nobs = length true_lab;
          w = weight nobs (n_intersec true_lab pred_lab lab plab)
      in if lab = plab then put wmat lab plab w
         else (let wmat1 = put wmat lab plab w;
                   w2 = weight nobs (n_intersec true_lab pred_lab plab lab)
               in put wmat1 plab lab w2))"

text \<open>
  Lines 117 to 131: \<open>nclass\<close> distinct true labels, a zero matrix, and the two nested loops
  \<^verbatim>\<open>for lab in range(nclass): for plab in range(lab, nclass)\<close>. The division by \<open>nobs\<close> is
  only reached inside the loops, where \<open>nclass > 0\<close> and hence \<open>nobs > 0\<close>.
\<close>

definition nclass_of :: "labeling \<Rightarrow> nat" where
  "nclass_of true_lab = card (set true_lab)"

definition cost_matrix :: "labeling \<Rightarrow> labeling \<Rightarrow> matrix" where
  "cost_matrix true_lab pred_lab =
     (let nclass = nclass_of true_lab
      in fold (\<lambda>lab wmat. fold (cell_step true_lab pred_lab lab) [lab..<nclass] wmat)
           [0..<nclass] (replicate nclass (replicate nclass 0)))"

text \<open>
  The same loops when \<open>pred_lab\<close> is two-dimensional: \<^verbatim>\<open>np.argwhere(pred_lab == plab)\<close> then
  has one line per matching entry, and the first line of its transpose holds the row numbers
  of these entries, so the set made of it is the set of rows that contain \<open>plab\<close>.
\<close>

definition argwhere_rows :: "int list list \<Rightarrow> int \<Rightarrow> nat list" where
  "argwhere_rows rows v = filter (\<lambda>s. v \<in> set (rows ! s)) [0..<length rows]"

definition n_intersec_2d :: "labeling \<Rightarrow> int list list \<Rightarrow> nat \<Rightarrow> nat \<Rightarrow> nat" where
  "n_intersec_2d true_lab rows lab plab =
     card (set (argwhere_eq true_lab (int lab)) \<inter> set (argwhere_rows rows (int plab)))"

definition cell_step_2d ::
  "labeling \<Rightarrow> int list list \<Rightarrow> nat \<Rightarrow> nat \<Rightarrow> matrix \<Rightarrow> matrix" where
  "cell_step_2d true_lab rows lab plab wmat =
     (let nobs = length true_lab;
          w = weight nobs (n_intersec_2d true_lab rows lab plab)
      in if lab = plab then put wmat lab plab w
         else (let wmat1 = put wmat lab plab w;
                   w2 = weight nobs (n_intersec_2d true_lab rows plab lab)
               in put wmat1 plab lab w2))"

definition cost_matrix_2d :: "labeling \<Rightarrow> int list list \<Rightarrow> matrix" where
  "cost_matrix_2d true_lab rows =
     (let nclass = nclass_of true_lab
      in fold (\<lambda>lab wmat. fold (cell_step_2d true_lab rows lab) [lab..<nclass] wmat)
           [0..<nclass] (replicate nclass (replicate nclass 0)))"

section \<open>The assignment solver\<close>

text \<open>
  \<^verbatim>\<open>scipy.optimize.linear_sum_assignment\<close> is not part of the repository. It is a parameter
  \<open>lsa\<close> of the matcher: given the cost matrix it returns the column assigned to each row
  (the second component of scipy's result). Its contract, a bijection of minimal total
  cost, is the predicate \<open>optimal_assignment\<close>, assumed where a property depends on it.
\<close>

definition assignments :: "nat \<Rightarrow> nat list list" where
  "assignments n = filter distinct (List.n_lists n [0..<n])"

definition total_cost :: "matrix \<Rightarrow> nat list \<Rightarrow> rat" where
  "total_cost wmat cols = sum_list (map (\<lambda>i. wmat ! i ! (cols ! i)) [0..<length cols])"

definition is_assignment :: "nat \<Rightarrow> nat list \<Rightarrow> bool" where
  "is_assignment n cols = (cols \<in> set (assignments n))"

definition optimal_assignment :: "matrix \<Rightarrow> nat list \<Rightarrow> bool" where
  "optimal_assignment wmat cols =
     (is_assignment (length wmat) cols \<and>
      (\<forall>q \<in> set (assignments (length wmat)). total_cost wmat cols \<le> total_cost wmat q))"

text \<open>
  A reference solver by exhaustive search, used to run the matcher on concrete inputs.
\<close>

definition brute_force_lsa :: "matrix \<Rightarrow> nat list" where
  "brute_force_lsa wmat = arg_min_list (total_cost wmat) (assignments (length wmat))"

section \<open>The label matcher\<close>

text \<open>\<^verbatim>\<open>new_pred_lab.index(i)\<close>: the first position holding \<open>i\<close>, or a ValueError.\<close>

fun index_of :: "nat list \<Rightarrow> int \<Rightarrow> nat option" where
  "index_of [] i = None"
| "index_of (c # cs) i = (if int c = i then Some 0 else map_option Suc (index_of cs i))"

text \<open>
  \<^verbatim>\<open>np.array([new_pred_lab.index(i) for i in pred_lab])\<close>: the first label that is not in
  the list aborts the comprehension.
\<close>

fun relabel :: "nat list \<Rightarrow> labeling \<Rightarrow> py_error + labeling" where
  "relabel new_pred_lab [] = Inr []"
| "relabel new_pred_lab (i # rest) =
     (case index_of new_pred_lab i of
        None \<Rightarrow> Inl ValueError
      | Some k \<Rightarrow> (case relabel new_pred_lab rest of
                     Inl e \<Rightarrow> Inl e
                   | Inr ks \<Rightarrow> Inr (int k # ks)))"

text \<open>
  The same comprehension over a two-dimensional \<open>pred_lab\<close>, whose items are its rows. A row
  of one entry compares like that entry. With any other row the comparison of a list element
  with the row is an array without a single truth value, or the list is empty: both ways
  \<^verbatim>\<open>index\<close> ends in a ValueError.
\<close>

fun relabel_rows :: "nat list \<Rightarrow> int list list \<Rightarrow> py_error + labeling" where
  "relabel_rows new_pred_lab [] = Inr []"
| "relabel_rows new_pred_lab (row # rest) =
     (case row of
        [i] \<Rightarrow> (case index_of new_pred_lab i of
                  None \<Rightarrow> Inl ValueError
                | Some k \<Rightarrow> (case relabel_rows new_pred_lab rest of
                               Inl e \<Rightarrow> Inl e
                             | Inr ks \<Rightarrow> Inr (int k # ks)))
      | _ \<Rightarrow> Inl ValueError)"

text \<open>
  Line 117, \<^verbatim>\<open>set(true_lab)\<close> and \<^verbatim>\<open>len(true_lab)\<close>: the items of the first argument. A
  zero-dimensional array cannot be iterated, and the items of a two-dimensional array are
  its rows, arrays themselves and not hashable; both raise a TypeError of Python's own. A
  two-dimensional array without rows has no items. (The last equation is never used: the
  matcher only comes here with two arrays.)
\<close>

fun true_items :: "pyobj \<Rightarrow> py_error + labeling" where
  "true_items (Ndarray xs) = Inr xs"
| "true_items (SubArray n xs) = Inr xs"
| "true_items (Ndarray0d v) = Inl (TypeError ''iteration over a 0-d array'')"
| "true_items (Ndarray2d rows) =
     (if rows = [] then Inr []
      else Inl (TypeError (''unhashable type: '' @ [CHR 0x27] @ ''numpy.ndarray'' @ [CHR 0x27])))"
| "true_items (NotArray n) = Inl (TypeError ''not an array'')"

text \<open>
  Lines 118 to 134 for the items \<open>true_lab\<close> of the first argument and the second argument
  \<open>p\<close>. A zero-dimensional \<open>p\<close> fails in the first pass of the loops, where the transposed
  \<^verbatim>\<open>argwhere\<close> of a scalar has no first line (numpy 1.18 and later), and without a pass in
  the comprehension, which cannot iterate it. (The last equation is never used either.)
\<close>

fun array_branch :: "(matrix \<Rightarrow> nat list) \<Rightarrow> labeling \<Rightarrow> pyobj \<Rightarrow> py_error + labeling" where
  "array_branch lsa true_lab (Ndarray pred_lab) =
     (let wmat = cost_matrix true_lab pred_lab;
          new_pred_lab = lsa wmat
      in relabel new_pred_lab pred_lab)"
| "array_branch lsa true_lab (SubArray n pred_lab) =
     (let wmat = cost_matrix true_lab pred_lab;
          new_pred_lab = lsa wmat
      in relabel new_pred_lab pred_lab)"
| "array_branch lsa true_lab (Ndarray2d rows) =
     (let wmat = cost_matrix_2d true_lab rows;
          new_pred_lab = lsa wmat
      in relabel_rows new_pred_lab rows)"
| "array_branch lsa true_lab (Ndarray0d v) =
     (if nclass_of true_lab = 0 then Inl (TypeError ''iteration over a 0-d array'')
      else Inl IndexError)"
| "array_branch lsa true_lab (NotArray n) = Inl (TypeError ''not an array'')"

definition kuhn_munkres_algorithm ::
  "(matrix \<Rightarrow> nat list) \<Rightarrow> pyobj \<Rightarrow> pyobj \<Rightarrow> py_error + labeling" where
  "kuhn_munkres_algorithm lsa t p =
     (if is_ndarray t \<and> is_ndarray p then
        (case true_items t of
           Inl e \<Rightarrow> Inl e
         | Inr true_lab \<Rightarrow> array_branch lsa true_lab p)
      else Inl (TypeError (type_error_message t p)))"

section \<open>The 0/1 loss\<close>

text \<open>A Python float: a number, here exact, or \<^verbatim>\<open>nan\<close>.\<close>

datatype np_float = NaN | Finite rat

text \<open>
  The fraction of the positions of \<open>y_true\<close> at which the two labelings differ: the
  disagreement rate of two labelings of the same length with at least one position.
\<close>

definition disagreement_rate :: "labeling \<Rightarrow> labeling \<Rightarrow> rat" where
  "disagreement_rate y_true y_pred =
     of_nat (length (filter (\<lambda>(a, b). a \<noteq> b) (zip y_true y_pred))) / of_nat (length y_true)"

text \<open>
  \<^verbatim>\<open>sklearn.metrics.zero_one_loss\<close> is external too, and a parameter \<open>loss\<close> of the
  validator. What is assumed of it, where a property depends on it, is its behaviour on
  one-dimensional integer arrays: two inputs of different lengths are rejected with a
  ValueError, and on two inputs of one length with at least one position the result is the
  fraction of positions where they differ. Nothing is assumed about two empty inputs.
\<close>

definition zero_one_loss_contract :: "(labeling \<Rightarrow> labeling \<Rightarrow> py_error + np_float) \<Rightarrow> bool" where
  "zero_one_loss_contract loss =
     (\<forall>y_true y_pred.
        (length y_true \<noteq> length y_pred \<longrightarrow> loss y_true y_pred = Inl ValueError) \<and>
        (length y_true = length y_pred \<and> y_true \<noteq> [] \<longrightarrow>
           loss y_true y_pred = Inr (Finite (disagreement_rate y_true y_pred))))"

text \<open>
  A reference version, used to speak of the loss of two given labelings and to run the
  validator on concrete inputs. On two empty inputs it follows the versions of scikit-learn
  of the time of the repository, where one minus the mean of an empty array of equalities is
  \<^verbatim>\<open>nan\<close>.
\<close>

definition zero_one_loss :: "labeling \<Rightarrow> labeling \<Rightarrow> py_error + np_float" where
  "zero_one_loss y_true y_pred =
     (if length y_true \<noteq> length y_pred then Inl ValueError
      else if y_true = [] then Inr NaN
      else Inr (Finite (disagreement_rate y_true y_pred)))"

section \<open>The validator\<close>

text \<open>
  The clustering and the classification objects are scikit-learn style estimators that the
  repository only calls. Their methods are parameters: \<open>'c\<close> and \<open>'s\<close> are the internal
  states of the two objects and \<open>'d\<close> is a data set. \<^verbatim>\<open>fit_predict\<close> returns the labels
  and leaves the clusterer in a new state; \<^verbatim>\<open>fit\<close> mutates the classifier and returns it
  (one state stands for both); \<^verbatim>\<open>predict\<close> only reads the state. The labels they return
  are one-dimensional integer arrays.
\<close>

record ('d, 'c, 's) capabilities =
  fit_predict :: "'c \<Rightarrow> 'd \<Rightarrow> labeling \<times> 'c"
  fit :: "'s \<Rightarrow> 'd \<Rightarrow> labeling \<Rightarrow> 's"
  predict :: "'s \<Rightarrow> 'd \<Rightarrow> labeling"

text \<open>The fields set by \<^verbatim>\<open>__init__(self, s, c, nrand)\<close>.\<close>

record ('c, 's) relative_validation =
  class_method :: 's
  clust_method :: 'c
  nrand :: int

text \<open>
  Each method returns its Python result together with the validator after the call, or the
  error that a call inside it raised.
\<close>

type_synonym loss_function = "labeling \<Rightarrow> labeling \<Rightarrow> py_error + np_float"


definition test ::
  "loss_function \<Rightarrow> (matrix \<Rightarrow> nat list) \<Rightarrow> ('d, 'c, 's) capabilities
     \<Rightarrow> ('c, 's) relative_validation \<Rightarrow> 'd \<Rightarrow> 's
     \<Rightarrow> py_error + ((np_float \<times> labeling) \<times> ('c, 's) relative_validation)" where
  "test loss lsa caps self test_data fit_model =
     (let (clustlab_ts, clust') = fit_predict caps (clust_method self) test_data;
          classlab_ts = predict caps fit_model test_data
      in case kuhn_munkres_algorithm lsa (Ndarray clustlab_ts) (Ndarray classlab_ts) of
           Inl e \<Rightarrow> Inl e
         | Inr bestperm \<Rightarrow>
             (case loss clustlab_ts bestperm of
                Inl e \<Rightarrow> Inl e
              | Inr misclass \<Rightarrow>
                  Inr ((misclass, clustlab_ts), self\<lparr>clust_method := clust'\<rparr>)))"








section \<open>Auxiliary notions\<close>

text \<open>The label identifiers \<open>0, \<dots>, n - 1\<close>.\<close>

definition label_universe :: "nat \<Rightarrow> int set" where
  "label_universe n = {0..<int n}"

text \<open>A matrix of \<open>n\<close> rows and \<open>n\<close> columns.\<close>

definition shape :: "nat \<Rightarrow> matrix \<Rightarrow> bool" where
  "shape n wmat = (length wmat = n \<and> (\<forall>i < n. length (wmat ! i) = n))"

text \<open>The entry \<open>[a, b]\<close> already holds its final value.\<close>

definition good :: "labeling \<Rightarrow> labeling \<Rightarrow> matrix \<Rightarrow> nat \<Rightarrow> nat \<Rightarrow> bool" where
  "good t p wmat a b = (wmat ! a ! b = weight (length t) (n_intersec t p a b))"

text \<open>The relabeling that the matcher applies to one predicted label.\<close>

definition inverse_label :: "nat list \<Rightarrow> int \<Rightarrow> int" where
  "inverse_label cs x = (case index_of cs x of Some k \<Rightarrow> int k | None \<Rightarrow> x)"

section \<open>The rounds of the randomised baseline\<close>





text \<open>The Python value of a call, without the state left behind.\<close>

definition returned :: "py_error + ('a \<times> 'b) \<Rightarrow> py_error + 'a" where
  "returned r = (case r of Inl e \<Rightarrow> Inl e | Inr (v, st) \<Rightarrow> Inr v)"

section \<open>Stand-ins for the external objects\<close>

text \<open>
  Small concrete estimators and a concrete generator, to run the validator on examples. A
  data set is its number of samples. The clusterer labels the samples 0, 1, 0, 1, \<dots>; the
  classifier memorises its training labels (or their swap) and predicts them back.
\<close>

definition alternating_clusterer :: "unit \<Rightarrow> nat \<Rightarrow> labeling \<times> unit" where
  "alternating_clusterer c d = (map (\<lambda>i. int (i mod 2)) [0..<d], c)"

definition take_labels :: "labeling \<Rightarrow> nat \<Rightarrow> labeling" where
  "take_labels s d = take d s"

definition memorise :: "labeling \<Rightarrow> nat \<Rightarrow> labeling \<Rightarrow> labeling" where
  "memorise s d labels = labels"


definition lookup_caps :: "(nat, unit, labeling) capabilities" where
  "lookup_caps = \<lparr>fit_predict = alternating_clusterer, fit = memorise, predict = take_labels\<rparr>"




text \<open>A validator with two randomisation rounds.\<close>

definition example_validator :: "(unit, labeling) relative_validation" where
  "example_validator = \<lparr>class_method = [], clust_method = (), nrand = 2\<rparr>"

section \<open>Properties of the cost matrix\<close>

lemma set_argwhere_eq: "set (argwhere_eq xs v) = {s. s < length xs \<and> xs ! s = v}"
  by (auto simp: argwhere_eq_def)

lemma n_intersec_card:
  "n_intersec t p i j =
     card ({s. s < length t \<and> t ! s = int i} \<inter> {s. s < length p \<and> p ! s = int j})"
  by (simp add: n_intersec_def set_argwhere_eq)

lemma n_intersec_le: "n_intersec t p i j \<le> length t"
proof -
  have "{s. s < length t \<and> t ! s = int i} \<inter> {s. s < length p \<and> p ! s = int j} \<subseteq> {..<length t}"
    by auto
  then have "card ({s. s < length t \<and> t ! s = int i} \<inter> {s. s < length p \<and> p ! s = int j})
      \<le> card {..<length t}"
    by (intro card_mono) auto
  then show ?thesis by (simp add: n_intersec_card)
qed

lemma shape_put: "shape n wmat \<Longrightarrow> shape n (put wmat i j w)"
  by (cases "i < length wmat") (auto simp: shape_def put_def nth_list_update)

lemma put_nth:
  "shape n wmat \<Longrightarrow> i < n \<Longrightarrow> j < n \<Longrightarrow>
   put wmat i j w ! a ! b = (if a = i \<and> b = j then w else wmat ! a ! b)"
  by (auto simp: shape_def put_def nth_list_update)

lemma shape_cell_step: "shape n wmat \<Longrightarrow> shape n (cell_step t p lab plab wmat)"
  by (simp add: cell_step_def Let_def shape_put)

lemma cell_step_keeps:
  "shape n wmat \<Longrightarrow> lab < n \<Longrightarrow> plab < n \<Longrightarrow> good t p wmat a b \<Longrightarrow>
   good t p (cell_step t p lab plab wmat) a b"
  by (auto simp: cell_step_def Let_def good_def put_nth [where n = n] shape_put)

lemma cell_step_sets:
  "shape n wmat \<Longrightarrow> lab < n \<Longrightarrow> plab < n \<Longrightarrow>
   good t p (cell_step t p lab plab wmat) lab plab \<and>
   good t p (cell_step t p lab plab wmat) plab lab"
  by (auto simp: cell_step_def Let_def good_def put_nth [where n = n] shape_put)

lemma inner_shape:
  "shape n wmat \<Longrightarrow> shape n (fold (cell_step t p lab) ps wmat)"
  by (induction ps arbitrary: wmat) (simp_all add: shape_cell_step)

lemma inner_keeps:
  "shape n wmat \<Longrightarrow> lab < n \<Longrightarrow> \<forall>x \<in> set ps. x < n \<Longrightarrow> good t p wmat a b \<Longrightarrow>
   good t p (fold (cell_step t p lab) ps wmat) a b"
  by (induction ps arbitrary: wmat) (simp_all add: shape_cell_step cell_step_keeps)

lemma inner_sets:
  "shape n wmat \<Longrightarrow> lab < n \<Longrightarrow> \<forall>x \<in> set ps. x < n \<Longrightarrow> plab \<in> set ps \<Longrightarrow>
   good t p (fold (cell_step t p lab) ps wmat) lab plab \<and>
   good t p (fold (cell_step t p lab) ps wmat) plab lab"
proof (induction ps arbitrary: wmat)
  case Nil
  then show ?case by simp
next
  case (Cons x ps)
  have sh: "shape n (cell_step t p lab x wmat)"
    using Cons.prems(1) by (rule shape_cell_step)
  have xs: "\<forall>y \<in> set ps. y < n" and x: "x < n"
    using Cons.prems(3) by simp_all
  show ?case
  proof (cases "plab = x")
    case True
    have "good t p (cell_step t p lab x wmat) lab x \<and> good t p (cell_step t p lab x wmat) x lab"
      using Cons.prems(1,2) x by (rule cell_step_sets)
    then show ?thesis
      using True sh xs Cons.prems(2) by (simp add: inner_keeps)
  next
    case False
    then have "plab \<in> set ps" using Cons.prems(4) by simp
    then show ?thesis
      using Cons.IH [OF sh Cons.prems(2) xs] by simp
  qed
qed

lemma outer_shape:
  "shape n wmat \<Longrightarrow> shape n (fold (\<lambda>lab wmat. fold (cell_step t p lab) [lab..<n] wmat) ls wmat)"
  by (induction ls arbitrary: wmat) (simp_all add: inner_shape)

lemma outer_keeps:
  "shape n wmat \<Longrightarrow> \<forall>l \<in> set ls. l < n \<Longrightarrow> good t p wmat a b \<Longrightarrow>
   good t p (fold (\<lambda>lab wmat. fold (cell_step t p lab) [lab..<n] wmat) ls wmat) a b"
  by (induction ls arbitrary: wmat) (simp_all add: inner_shape inner_keeps)

lemma outer_sets:
  "shape n wmat \<Longrightarrow> \<forall>l \<in> set ls. l < n \<Longrightarrow> lab \<in> set ls \<Longrightarrow> lab \<le> plab \<Longrightarrow> plab < n \<Longrightarrow>
   good t p (fold (\<lambda>lab wmat. fold (cell_step t p lab) [lab..<n] wmat) ls wmat) lab plab \<and>
   good t p (fold (\<lambda>lab wmat. fold (cell_step t p lab) [lab..<n] wmat) ls wmat) plab lab"
proof (induction ls arbitrary: wmat)
  case Nil
  then show ?case by simp
next
  case (Cons x ls)
  have sh: "shape n (fold (cell_step t p x) [x..<n] wmat)"
    using Cons.prems(1) by (rule inner_shape)
  have ls: "\<forall>l \<in> set ls. l < n" and x: "x < n"
    using Cons.prems(2) by simp_all
  show ?case
  proof (cases "lab = x")
    case True
    have mem: "plab \<in> set [x..<n]" using True Cons.prems(4,5) by simp
    have rng: "\<forall>y \<in> set [x..<n]. y < n" by simp
    have "good t p (fold (cell_step t p x) [x..<n] wmat) x plab \<and>
               good t p (fold (cell_step t p x) [x..<n] wmat) plab x"
      using Cons.prems(1) x rng mem by (rule inner_sets)
    then show ?thesis
      using True sh ls by (simp add: outer_keeps)
  next
    case False
    then have "lab \<in> set ls" using Cons.prems(3) by simp
    then show ?thesis
      using Cons.IH [OF sh ls _ Cons.prems(4,5)] by simp
  qed
qed

lemma shape_cost_matrix: "shape (nclass_of t) (cost_matrix t p)"
  unfolding cost_matrix_def Let_def
  by (rule outer_shape) (simp add: shape_def)

lemma cost_matrix_entry:
  assumes "i < nclass_of t" "j < nclass_of t"
  shows "cost_matrix t p ! i ! j = weight (length t) (n_intersec t p i j)"
proof -
  let ?n = "nclass_of t"
  let ?z = "replicate ?n (replicate ?n (0::rat))"
  have sh: "shape ?n ?z" by (simp add: shape_def)
  have rng: "\<forall>l \<in> set [0..<?n]. l < ?n" by simp
  show ?thesis
  proof (cases "i \<le> j")
    case True
    have "good t p (cost_matrix t p) i j"
      unfolding cost_matrix_def Let_def
      using outer_sets [OF sh rng _ True assms(2), of t p] assms(1) by simp
    then show ?thesis by (simp add: good_def)
  next
    case False
    then have le: "j \<le> i" by simp
    have "good t p (cost_matrix t p) i j"
      unfolding cost_matrix_def Let_def
      using outer_sets [OF sh rng _ le assms(1), of t p] assms(2) by simp
    then show ?thesis by (simp add: good_def)
  qed
qed

lemma nclass_pos_nobs: "i < nclass_of t \<Longrightarrow> 0 < length t"
  by (cases t) (simp_all add: nclass_of_def)

lemma weight_range: "k \<le> n \<Longrightarrow> 0 < n \<Longrightarrow> 0 \<le> weight n k \<and> weight n k \<le> 1"
  by (simp add: weight_def)

section \<open>Assignments and agreement counts\<close>

lemma set_assignments:
  "set (assignments n) = {q. length q = n \<and> distinct q \<and> set q \<subseteq> {0..<n}}"
  by (auto simp: assignments_def set_n_lists)

lemma assignment_set_eq:
  assumes "q \<in> set (assignments n)"
  shows "set q = {0..<n}"
proof -
  have l: "length q = n" and d: "distinct q" and s: "set q \<subseteq> {0..<n}"
    using assms by (simp_all add: set_assignments)
  have "card (set q) = n" using l d by (simp add: distinct_card)
  then show ?thesis using s by (simp add: card_subset_eq)
qed

lemma assignment_surj:
  assumes "q \<in> set (assignments n)" "c < n"
  shows "\<exists>i < n. q ! i = c"
proof -
  have "c \<in> set q" using assms by (simp add: assignment_set_eq)
  then obtain i where "i < length q" "q ! i = c" by (auto simp: in_set_conv_nth)
  moreover have "length q = n" using assms(1) by (simp add: set_assignments)
  ultimately show ?thesis by auto
qed

lemma assignment_inj:
  assumes "q \<in> set (assignments n)" "i < n" "j < n" "q ! i = q ! j"
  shows "i = j"
  using assms by (simp add: set_assignments nth_eq_iff_index_eq)

lemma identity_assignment: "[0..<n] \<in> set (assignments n)"
  by (simp add: set_assignments)

text \<open>The solver contract can be met: exhaustive search meets it on every matrix.\<close>

lemma brute_force_lsa_optimal: "optimal_assignment wmat (brute_force_lsa wmat)"
proof -
  let ?as = "assignments (length wmat)"
  have ne: "?as \<noteq> []"
    using identity_assignment [of "length wmat"] by auto
  have mem: "brute_force_lsa wmat \<in> set ?as"
    unfolding brute_force_lsa_def using ne by (rule arg_min_list_in)
  have "total_cost wmat (brute_force_lsa wmat) = Min (total_cost wmat ` set ?as)"
    unfolding brute_force_lsa_def using ne by (rule f_arg_min_list_f)
  then have "\<forall>q \<in> set ?as. total_cost wmat (brute_force_lsa wmat) \<le> total_cost wmat q"
    by simp
  with mem show ?thesis by (simp add: optimal_assignment_def is_assignment_def)
qed

lemma agreement_card:
  assumes q: "q \<in> set (assignments n)"
    and rho: "\<forall>i < n. rho (int (q ! i)) = int i"
    and len: "length p = length t"
    and univ: "set p \<subseteq> label_universe n"
  shows "card {s. s < length t \<and> t ! s = rho (p ! s)} = (\<Sum>i \<in> {0..<n}. n_intersec t p i (q ! i))"
proof -
  let ?A = "\<lambda>i. {s. s < length t \<and> t ! s = int i} \<inter> {s. s < length p \<and> p ! s = int (q ! i)}"
  have eq: "{s. s < length t \<and> t ! s = rho (p ! s)} = (\<Union>i \<in> {0..<n}. ?A i)"
  proof (rule set_eqI, rule iffI)
    fix s
    assume "s \<in> {s. s < length t \<and> t ! s = rho (p ! s)}"
    then have s: "s < length t" and ts: "t ! s = rho (p ! s)" by simp_all
    have "p ! s \<in> label_universe n" using univ s len by (auto simp: subset_iff)
    then obtain c where c: "c < n" "p ! s = int c"
      by (auto simp: label_universe_def intro: that [of "nat (p ! s)"])
    obtain i where i: "i < n" "q ! i = c" using assignment_surj [OF q c(1)] by auto
    have "rho (int (q ! i)) = int i" using rho i(1) by simp
    then have "t ! s = int i" using ts c i by simp
    then show "s \<in> (\<Union>i \<in> {0..<n}. ?A i)" using s len c i by auto
  next
    fix s
    assume "s \<in> (\<Union>i \<in> {0..<n}. ?A i)"
    then obtain i where "i < n" "s < length t" "t ! s = int i" "p ! s = int (q ! i)" by auto
    then show "s \<in> {s. s < length t \<and> t ! s = rho (p ! s)}" using rho by simp
  qed
  have disj: "\<forall>i \<in> {0..<n}. \<forall>j \<in> {0..<n}. i \<noteq> j \<longrightarrow> ?A i \<inter> ?A j = {}" by auto
  have "card (\<Union>i \<in> {0..<n}. ?A i) = (\<Sum>i \<in> {0..<n}. card (?A i))"
    by (rule card_UN_disjoint) (use disj in auto)
  then show ?thesis by (simp add: eq n_intersec_card)
qed

lemma disagree_count:
  assumes "length r = length t"
  shows "length (filter (\<lambda>(a, b). a \<noteq> b) (zip t r)) + card {s. s < length t \<and> t ! s = r ! s}
           = length t"
proof -
  let ?D = "{s. s < length t \<and> t ! s \<noteq> r ! s}" and ?E = "{s. s < length t \<and> t ! s = r ! s}"
  have "length (filter (\<lambda>(a, b). a \<noteq> b) (zip t r)) = card ?D"
    using assms by (simp add: length_filter_conv_card case_prod_beta cong: conj_cong)
  moreover have "card ?D + card ?E = card (?D \<union> ?E)"
    by (rule card_Un_disjoint [symmetric]) auto
  moreover have "?D \<union> ?E = {..<length t}" by auto
  ultimately show ?thesis by simp
qed

lemma disagreement_rate_agree:
  assumes "length r = length t"
  shows "disagreement_rate t r =
     (of_nat (length t) - of_nat (card {s. s < length t \<and> t ! s = r ! s})) / of_nat (length t)"
proof -
  have "of_nat (length (filter (\<lambda>(a, b). a \<noteq> b) (zip t r))) =
        (of_nat (length t) - of_nat (card {s. s < length t \<and> t ! s = r ! s}) :: rat)"
  proof -
    have "(of_nat (length (filter (\<lambda>(a, b). a \<noteq> b) (zip t r)) + card {s. s < length t \<and> t ! s = r ! s}) :: rat)
       = of_nat (length t)"
      by (simp only: disagree_count [OF assms])
    then show ?thesis by (simp only: of_nat_add)
  qed
  then show ?thesis by (simp add: disagreement_rate_def)
qed

lemma n_intersec_sum_le:
  assumes q: "q \<in> set (assignments n)"
  shows "(\<Sum>i \<in> {0..<n}. n_intersec t p i (q ! i)) \<le> length t"
proof -
  let ?A = "\<lambda>i. {s. s < length t \<and> t ! s = int i} \<inter> {s. s < length p \<and> p ! s = int (q ! i)}"
  have disj: "\<forall>i \<in> {0..<n}. \<forall>j \<in> {0..<n}. i \<noteq> j \<longrightarrow> ?A i \<inter> ?A j = {}" by auto
  have "(\<Sum>i \<in> {0..<n}. card (?A i)) = card (\<Union>i \<in> {0..<n}. ?A i)"
    by (rule card_UN_disjoint [symmetric]) (use disj in auto)
  also have "\<dots> \<le> card {..<length t}"
    by (rule card_mono) auto
  finally show ?thesis by (simp add: n_intersec_card)
qed

lemma total_cost_cost_matrix:
  assumes q: "q \<in> set (assignments (nclass_of t))"
  shows "total_cost (cost_matrix t p) q =
     (\<Sum>i \<in> {0..<nclass_of t}. weight (length t) (n_intersec t p i (q ! i)))"
proof -
  let ?n = "nclass_of t"
  have l: "length q = ?n" using q by (simp add: set_assignments)
  have r: "\<And>i. i < ?n \<Longrightarrow> q ! i < ?n"
    using q l by (auto simp: set_assignments subset_iff)
  have "total_cost (cost_matrix t p) q = (\<Sum>i \<in> {0..<?n}. cost_matrix t p ! i ! (q ! i))"
    by (simp add: total_cost_def l interv_sum_list_conv_sum_set_nat)
  also have "\<dots> = (\<Sum>i \<in> {0..<?n}. weight (length t) (n_intersec t p i (q ! i)))"
    by (rule sum.cong) (simp_all add: cost_matrix_entry r)
  finally show ?thesis .
qed

lemma sum_weight:
  assumes "0 < m"
  shows "(\<Sum>i \<in> {0..<n}. weight m (f i)) = of_nat n - of_nat (\<Sum>i \<in> {0..<n}. f i) / of_nat m"
proof -
  have "weight m k = 1 - of_nat k / of_nat m" for k
    using assms by (simp add: weight_def diff_divide_distrib)
  then show ?thesis by (simp add: sum_subtractf sum_divide_distrib)
qed

lemma cost_le_imp_agree_ge:
  assumes c: "c \<in> set (assignments (nclass_of t))" and q: "q \<in> set (assignments (nclass_of t))"
    and le: "total_cost (cost_matrix t p) c \<le> total_cost (cost_matrix t p) q"
    and pos: "0 < length t"
  shows "(\<Sum>i \<in> {0..<nclass_of t}. n_intersec t p i (q ! i))
         \<le> (\<Sum>i \<in> {0..<nclass_of t}. n_intersec t p i (c ! i))"
proof -
  let ?n = "nclass_of t" and ?m = "length t"
  let ?Sc = "\<Sum>i \<in> {0..<?n}. n_intersec t p i (c ! i)"
  let ?Sq = "\<Sum>i \<in> {0..<?n}. n_intersec t p i (q ! i)"
  have "of_nat ?n - of_nat ?Sc / of_nat ?m \<le> (of_nat ?n - of_nat ?Sq / of_nat ?m :: rat)"
    using le by (simp add: total_cost_cost_matrix c q sum_weight [OF pos])
  then have "(of_nat ?Sq :: rat) / of_nat ?m \<le> of_nat ?Sc / of_nat ?m" by simp
  then have "(of_nat ?Sq :: rat) \<le> of_nat ?Sc"
    using pos by (simp add: divide_le_cancel)
  then show ?thesis by (simp only: of_nat_le_iff)
qed

section \<open>Properties of the label matcher\<close>

lemma index_of_None: "index_of cs x = None \<longleftrightarrow> x \<notin> int ` set cs"
  by (induction cs) auto

lemma index_of_Some: "index_of cs x = Some k \<Longrightarrow> k < length cs \<and> int (cs ! k) = x"
  by (induction cs arbitrary: k) (auto split: if_splits)

lemma index_of_nth: "distinct cs \<Longrightarrow> i < length cs \<Longrightarrow> index_of cs (int (cs ! i)) = Some i"
proof (induction cs arbitrary: i)
  case Nil
  then show ?case by simp
next
  case (Cons c cs)
  show ?case
  proof (cases i)
    case 0
    then show ?thesis by simp
  next
    case (Suc j)
    then have "j < length cs" using Cons.prems(2) by simp
    moreover have "cs ! j \<noteq> c" using Cons.prems(1) calculation by auto
    ultimately show ?thesis using Cons.IH [of j] Cons.prems(1) Suc by simp
  qed
qed

lemma relabel_ok:
  "\<forall>x \<in> set p. x \<in> int ` set cs \<Longrightarrow> relabel cs p = Inr (map (inverse_label cs) p)"
proof (induction p)
  case Nil
  then show ?case by simp
next
  case (Cons x p)
  then have "index_of cs x \<noteq> None" by (simp add: index_of_None)
  then obtain k where "index_of cs x = Some k" by auto
  then show ?case using Cons by (simp add: inverse_label_def)
qed

lemma relabel_fail:
  "\<exists>x \<in> set p. x \<notin> int ` set cs \<Longrightarrow> relabel cs p = Inl ValueError"
proof (induction p)
  case Nil
  then show ?case by simp
next
  case (Cons x p)
  show ?case
  proof (cases "index_of cs x")
    case None
    then show ?thesis by simp
  next
    case (Some k)
    then have "x \<in> int ` set cs" using index_of_None [of cs x] by simp
    then have "\<exists>y \<in> set p. y \<notin> int ` set cs" using Cons.prems by auto
    then have "relabel cs p = Inl ValueError" by (rule Cons.IH)
    then show ?thesis using Some by simp
  qed
qed

lemma assignment_image:
  assumes "c \<in> set (assignments n)"
  shows "int ` set c = label_universe n"
proof -
  have "set c = {0..<n}" using assms by (rule assignment_set_eq)
  moreover have "int ` {0..<n} = {0..<int n}"
  proof (rule set_eqI, rule iffI)
    fix x assume "x \<in> int ` {0..<n}"
    then show "x \<in> {0..<int n}" by auto
  next
    fix x assume "x \<in> {0..<int n}"
    then have "x = int (nat x)" "nat x \<in> {0..<n}" by auto
    then show "x \<in> int ` {0..<n}" by (rule image_eqI)
  qed
  ultimately show ?thesis by (simp add: label_universe_def)
qed

lemma inverse_label_nth:
  assumes "c \<in> set (assignments n)" "i < n"
  shows "inverse_label c (int (c ! i)) = int i"
  using assms by (simp add: inverse_label_def set_assignments index_of_nth)

lemma length_cost_matrix: "length (cost_matrix t p) = nclass_of t"
  using shape_cost_matrix [of t p] by (simp add: shape_def)

lemma kuhn_ndarray:
  "kuhn_munkres_algorithm lsa (Ndarray t) (Ndarray p) = relabel (lsa (cost_matrix t p)) p"
  by (simp add: kuhn_munkres_algorithm_def)

lemma agree_set_map:
  "length p = length t \<Longrightarrow>
   {s. s < length t \<and> t ! s = map f p ! s} = {s. s < length t \<and> t ! s = f (p ! s)}"
  by auto

lemma kuhn_loss_le:
  assumes len: "length p = length t"
    and univ: "set p \<subseteq> label_universe (nclass_of t)"
    and opt: "optimal_assignment (cost_matrix t p) (lsa (cost_matrix t p))"
    and q: "q \<in> set (assignments (nclass_of t))"
    and rho: "\<forall>i < nclass_of t. rho (int (q ! i)) = int i"
  shows "kuhn_munkres_algorithm lsa (Ndarray t) (Ndarray p)
           = Inr (map (inverse_label (lsa (cost_matrix t p))) p) \<and>
         disagreement_rate t (map (inverse_label (lsa (cost_matrix t p))) p)
           \<le> disagreement_rate t (map rho p)"
proof -
  let ?n = "nclass_of t" and ?c = "lsa (cost_matrix t p)"
  have c: "?c \<in> set (assignments ?n)"
    using opt by (simp add: optimal_assignment_def is_assignment_def length_cost_matrix)
  have le: "total_cost (cost_matrix t p) ?c \<le> total_cost (cost_matrix t p) q"
    using opt q by (simp add: optimal_assignment_def length_cost_matrix)
  have "\<forall>x \<in> set p. x \<in> int ` set ?c"
    using univ by (auto simp: assignment_image [OF c])
  then have ret: "kuhn_munkres_algorithm lsa (Ndarray t) (Ndarray p) = Inr (map (inverse_label ?c) p)"
    by (simp add: kuhn_ndarray relabel_ok)
  have inv: "\<forall>i < ?n. inverse_label ?c (int (?c ! i)) = int i"
    using c by (simp add: inverse_label_nth)
  have ac: "card {s. s < length t \<and> t ! s = map (inverse_label ?c) p ! s} =
      (\<Sum>i \<in> {0..<?n}. n_intersec t p i (?c ! i))"
    using agreement_card [OF c inv len univ] by (simp add: agree_set_map [OF len])
  have aq: "card {s. s < length t \<and> t ! s = map rho p ! s} =
      (\<Sum>i \<in> {0..<?n}. n_intersec t p i (q ! i))"
    using agreement_card [OF q rho len univ] by (simp add: agree_set_map [OF len])
  have "disagreement_rate t (map (inverse_label ?c) p) \<le> disagreement_rate t (map rho p)"
  proof (cases "length t = 0")
    case True
    then show ?thesis by (simp add: disagreement_rate_def)
  next
    case False
    then have pos: "0 < length t" by simp
    have "(\<Sum>i \<in> {0..<?n}. n_intersec t p i (q ! i)) \<le> (\<Sum>i \<in> {0..<?n}. n_intersec t p i (?c ! i))"
      using c q le pos by (rule cost_le_imp_agree_ge)
    then have "(of_nat (length t) - of_nat (\<Sum>i \<in> {0..<?n}. n_intersec t p i (?c ! i)) :: rat)
        \<le> of_nat (length t) - of_nat (\<Sum>i \<in> {0..<?n}. n_intersec t p i (q ! i))"
      by (simp only: diff_left_mono of_nat_le_iff)
    then show ?thesis
      by (simp only: disagreement_rate_agree len length_map ac aq divide_right_mono of_nat_0_le_iff)
  qed
  with ret show ?thesis by simp
qed

lemma bij_assignment:
  assumes "bij_betw sigma (label_universe n) (label_universe n)"
  shows "\<exists>q \<in> set (assignments n). \<forall>i < n. sigma (int (q ! i)) = int i"
proof -
  let ?U = "label_universe n"
  let ?g = "\<lambda>i. nat (inv_into ?U sigma (int i))"
  let ?q = "map ?g [0..<n]"
  have inU: "int i \<in> ?U" if "i < n" for i using that by (simp add: label_universe_def)
  have bi: "bij_betw (inv_into ?U sigma) ?U ?U" using assms by (rule bij_betw_inv_into)
  have gU: "inv_into ?U sigma (int i) \<in> ?U" if "i < n" for i
    using bi inU [OF that] by (auto simp: bij_betw_def)
  have sg: "sigma (int (?g i)) = int i" if "i < n" for i
  proof -
    have "0 \<le> inv_into ?U sigma (int i)" using gU [OF that] by (simp add: label_universe_def)
    then have "int (?g i) = inv_into ?U sigma (int i)" by simp
    moreover have "sigma (inv_into ?U sigma (int i)) = int i"
      using assms inU [OF that] by (simp add: bij_betw_inv_into_right)
    ultimately show ?thesis by simp
  qed
  have inj: "inj_on ?g {0..<n}"
  proof (rule inj_onI)
    fix i j assume "i \<in> {0..<n}" "j \<in> {0..<n}" "?g i = ?g j"
    then have "sigma (int (?g i)) = sigma (int (?g j))" "i < n" "j < n" by simp_all
    then show "i = j" using sg by simp
  qed
  have "distinct ?q" using inj by (simp add: distinct_map)
  moreover have "set ?q \<subseteq> {0..<n}"
  proof
    fix c assume "c \<in> set ?q"
    then obtain i where i: "i < n" "c = ?g i" by auto
    then show "c \<in> {0..<n}" using gU [OF i(1)] by (auto simp: label_universe_def)
  qed
  ultimately have "?q \<in> set (assignments n)" by (simp add: set_assignments)
  moreover have "\<forall>i < n. sigma (int (?q ! i)) = int i" using sg by simp
  ultimately show ?thesis by blast
qed

lemma kuhn_loss_bij:
  assumes len: "length p = length t"
    and univ: "set p \<subseteq> label_universe (nclass_of t)"
    and opt: "optimal_assignment (cost_matrix t p) (lsa (cost_matrix t p))"
    and bij: "bij_betw sigma (label_universe (nclass_of t)) (label_universe (nclass_of t))"
  shows "kuhn_munkres_algorithm lsa (Ndarray t) (Ndarray p)
           = Inr (map (inverse_label (lsa (cost_matrix t p))) p) \<and>
         disagreement_rate t (map (inverse_label (lsa (cost_matrix t p))) p)
           \<le> disagreement_rate t (map sigma p)"
proof -
  obtain q where "q \<in> set (assignments (nclass_of t))"
    "\<forall>i < nclass_of t. sigma (int (q ! i)) = int i"
    using bij_assignment [OF bij] by blast
  then show ?thesis
    using len univ opt by (intro kuhn_loss_le [where lsa = lsa and q = q]) simp_all
qed


lemma nclass_example: "nclass_of [0, 0, 1, 1] = 2"
  by (simp add: nclass_of_def)

lemma optimal_example:
  "optimal_assignment (cost_matrix [0, 0, 1, 1] [1, 1, 0, 0])
     (brute_force_lsa (cost_matrix [0, 0, 1, 1] [1, 1, 0, 0]))"
  by code_simp

lemma universe_two: "label_universe 2 = {0, 1}"
  by (auto simp: label_universe_def)

section \<open>Invariance, identical labelings, zero samples\<close>

lemma inverse_label_bij:
  assumes c: "c \<in> set (assignments n)"
  shows "bij_betw (inverse_label c) (label_universe n) (label_universe n)"
proof (rule bij_betw_byWitness [where f' = "\<lambda>x. int (c ! nat x)"])
  have l: "length c = n" using c by (simp add: set_assignments)
  have nthU: "int (c ! i) \<in> label_universe n" if "i < n" for i
  proof -
    have "c ! i \<in> set c" using that l by simp
    then show ?thesis using assignment_image [OF c] by blast
  qed
  have rep: "\<exists>i < n. x = int (c ! i)" if "x \<in> label_universe n" for x
  proof -
    have "x \<in> int ` set c" using that assignment_image [OF c] by simp
    then obtain k where "k \<in> set c" "x = int k" by auto
    then show ?thesis using l by (auto simp: in_set_conv_nth)
  qed
  show "\<forall>x \<in> label_universe n. int (c ! nat (inverse_label c x)) = x"
  proof
    fix x assume "x \<in> label_universe n"
    then obtain i where "i < n" "x = int (c ! i)" using rep by blast
    then show "int (c ! nat (inverse_label c x)) = x"
      using inverse_label_nth [OF c] by simp
  qed
  show "\<forall>y \<in> label_universe n. inverse_label c (int (c ! nat y)) = y"
  proof
    fix y assume "y \<in> label_universe n"
    then have "nat y < n" "int (nat y) = y" by (auto simp: label_universe_def)
    then show "inverse_label c (int (c ! nat y)) = y"
      using inverse_label_nth [OF c, of "nat y"] by simp
  qed
  show "inverse_label c ` label_universe n \<subseteq> label_universe n"
  proof
    fix y assume "y \<in> inverse_label c ` label_universe n"
    then obtain x where "x \<in> label_universe n" "y = inverse_label c x" by auto
    then obtain i where "i < n" "y = int i" using rep inverse_label_nth [OF c] by auto
    then show "y \<in> label_universe n" by (simp add: label_universe_def)
  qed
  show "(\<lambda>x. int (c ! nat x)) ` label_universe n \<subseteq> label_universe n"
  proof
    fix y assume "y \<in> (\<lambda>x. int (c ! nat x)) ` label_universe n"
    then obtain x where "x \<in> label_universe n" "y = int (c ! nat x)" by auto
    moreover from this have "nat x < n" by (auto simp: label_universe_def)
    ultimately show "y \<in> label_universe n" using nthU [of "nat x"] by simp
  qed
qed

lemma optimal_is_assignment:
  "optimal_assignment (cost_matrix t p) c \<Longrightarrow> c \<in> set (assignments (nclass_of t))"
  by (simp add: optimal_assignment_def is_assignment_def length_cost_matrix)

lemma disagreement_rate_nonneg: "0 \<le> disagreement_rate t r"
  by (simp add: disagreement_rate_def)

lemma disagreement_rate_self: "disagreement_rate t t = 0"
proof -
  have "filter (\<lambda>(a, b). a \<noteq> b) (zip t t) = []"
    by (auto simp: filter_empty_conv set_zip)
  then show ?thesis by (simp add: disagreement_rate_def)
qed

lemma disagreement_rate_zero:
  assumes "disagreement_rate t r = 0" "length r = length t"
  shows "r = t"
proof (cases "t = []")
  case True
  then show ?thesis using assms(2) by simp
next
  case False
  then have "length (filter (\<lambda>(a, b). a \<noteq> b) (zip t r)) = 0"
    using assms(1) by (simp add: disagreement_rate_def)
  then have "\<forall>(a, b) \<in> set (zip t r). a = b"
    by (auto simp: filter_empty_conv)
  then have "t = r" using assms(2) by (simp add: list_eq_iff_zip_eq)
  then show ?thesis by simp
qed

lemma cost_matrix_empty: "cost_matrix [] p = []"
  by (simp add: cost_matrix_def nclass_of_def)

section \<open>Properties of the 0/1 loss\<close>

lemma zero_one_loss_eq:
  "length r = length t \<Longrightarrow>
   zero_one_loss t r = (if t = [] then Inr NaN else Inr (Finite (disagreement_rate t r)))"
  by (simp add: zero_one_loss_def)

lemma zero_one_loss_unequal: "length r \<noteq> length t \<Longrightarrow> zero_one_loss t r = Inl ValueError"
  by (auto simp: zero_one_loss_def)

lemma zero_one_loss_meets_contract: "zero_one_loss_contract zero_one_loss"
  by (simp add: zero_one_loss_contract_def zero_one_loss_def)

lemma contract_equal:
  "zero_one_loss_contract loss \<Longrightarrow> length r = length t \<Longrightarrow> t \<noteq> [] \<Longrightarrow>
   loss t r = Inr (Finite (disagreement_rate t r))"
  by (simp add: zero_one_loss_contract_def)

lemma contract_unequal:
  "zero_one_loss_contract loss \<Longrightarrow> length r \<noteq> length t \<Longrightarrow> loss t r = Inl ValueError"
  by (metis zero_one_loss_contract_def)

lemma disagreement_rate_card:
  assumes "length r = length t"
  shows "disagreement_rate t r =
           of_nat (card {s. s < length t \<and> t ! s \<noteq> r ! s}) / of_nat (length t)"
proof -
  have "length (filter (\<lambda>(a, b). a \<noteq> b) (zip t r)) = card {s. s < length t \<and> t ! s \<noteq> r ! s}"
    using assms by (simp add: length_filter_conv_card case_prod_beta cong: conj_cong)
  then show ?thesis by (simp add: disagreement_rate_def)
qed

lemma relabel_length: "relabel cs p = Inr r \<Longrightarrow> length r = length p"
  by (induction p arbitrary: r) (auto split: option.splits sum.splits)


lemma kuhn_ndarray_length:
  "kuhn_munkres_algorithm lsa (Ndarray t) (Ndarray p) = Inr r \<Longrightarrow> length r = length p"
  by (simp add: kuhn_ndarray relabel_length)

section \<open>Properties of the randomised baseline\<close>






lemma swap_bij: "bij_betw (\<lambda>x. 1 - x) (label_universe 2) (label_universe 2)"
  by (rule bij_betw_byWitness [where f' = "\<lambda>x. 1 - x"]) (auto simp: universe_two)

lemma optimal_example_swapped:
  "optimal_assignment (cost_matrix [0, 0, 1, 1] (map (\<lambda>x. 1 - x) [1, 1, 0, 0]))
     (brute_force_lsa (cost_matrix [0, 0, 1, 1] (map (\<lambda>x. 1 - x) [1, 1, 0, 0])))"
  by code_simp

lemma optimal_example_identical:
  "optimal_assignment (cost_matrix [0, 0, 1, 1] [0, 0, 1, 1])
     (brute_force_lsa (cost_matrix [0, 0, 1, 1] [0, 0, 1, 1]))"
  by code_simp


section \<open>Errors of the array branch\<close>




section \<open>The claims\<close>

text \<open>
  Claim C2. The cost matrix built by the matcher has \<open>nclass\<close> rows of \<open>nclass\<close> entries,
  \<open>nclass\<close> being the number of distinct true labels, and its entry \<open>[i, j]\<close> is
  \<open>(n - |{s. true_lab[s] = i} \<inter> {s. pred_lab[s] = j}|) / n\<close>, a value between 0 and 1,
  although the loops only visit the pairs with \<open>i \<le> j\<close>.
\<close>

theorem cost_matrix_entries:
  "length (cost_matrix true_lab pred_lab) = nclass_of true_lab \<and>
   (\<forall>i < nclass_of true_lab.
      length (cost_matrix true_lab pred_lab ! i) = nclass_of true_lab \<and>
      (\<forall>j < nclass_of true_lab.
         cost_matrix true_lab pred_lab ! i ! j =
           (of_nat (length true_lab) -
            of_nat (card ({s. s < length true_lab \<and> true_lab ! s = int i} \<inter>
                          {s. s < length pred_lab \<and> pred_lab ! s = int j})))
           / of_nat (length true_lab) \<and>
         0 \<le> cost_matrix true_lab pred_lab ! i ! j \<and>
         cost_matrix true_lab pred_lab ! i ! j \<le> 1))"
proof (intro conjI allI impI)
  show "length (cost_matrix true_lab pred_lab) = nclass_of true_lab"
    by (rule length_cost_matrix)
next
  fix i assume "i < nclass_of true_lab"
  then show "length (cost_matrix true_lab pred_lab ! i) = nclass_of true_lab"
    using shape_cost_matrix [of true_lab pred_lab] by (simp add: shape_def)
next
  fix i j assume ij: "i < nclass_of true_lab" "j < nclass_of true_lab"
  then show "cost_matrix true_lab pred_lab ! i ! j =
           (of_nat (length true_lab) -
            of_nat (card ({s. s < length true_lab \<and> true_lab ! s = int i} \<inter>
                          {s. s < length pred_lab \<and> pred_lab ! s = int j})))
           / of_nat (length true_lab)"
    by (simp add: cost_matrix_entry weight_def n_intersec_card)
  have "0 \<le> weight (length true_lab) (n_intersec true_lab pred_lab i j) \<and>
        weight (length true_lab) (n_intersec true_lab pred_lab i j) \<le> 1"
    using n_intersec_le nclass_pos_nobs [OF ij(1)] by (rule weight_range)
  then show "0 \<le> cost_matrix true_lab pred_lab ! i ! j"
    and "cost_matrix true_lab pred_lab ! i ! j \<le> 1"
    using ij by (simp_all add: cost_matrix_entry)
qed

text \<open>The entry \<open>[0, 1]\<close> for the labelings \<open>[0,0,1,1]\<close> and \<open>[1,1,0,0]\<close>.\<close>

theorem cost_matrix_entries_witness:
  "(0::nat) < nclass_of [0, 0, 1, 1] \<and> (1::nat) < nclass_of [0, 0, 1, 1] \<and>
   length (cost_matrix [0, 0, 1, 1] [1, 1, 0, 0]) = 2 \<and>
   length (cost_matrix [0, 0, 1, 1] [1, 1, 0, 0] ! 0) = 2 \<and>
   cost_matrix [0, 0, 1, 1] [1, 1, 0, 0] ! 0 ! 1 =
     (of_nat (length [0, 0, 1, 1 :: int]) -
      of_nat (card ({s. s < length [0, 0, 1, 1 :: int] \<and> [0, 0, 1, 1] ! s = int 0} \<inter>
                    {s. s < length [1, 1, 0, 0 :: int] \<and> [1, 1, 0, 0] ! s = int 1})))
     / of_nat (length [0, 0, 1, 1 :: int]) \<and>
   cost_matrix [0, 0, 1, 1] [1, 1, 0, 0] ! 0 ! 1 \<le> 1"
  using cost_matrix_entries [of "[0, 0, 1, 1]" "[1, 1, 0, 0]"]
  by (simp add: nclass_example)

text \<open>
  Claim C1. For labelings of equal length with predicted labels in \<open>{0..nclass-1}\<close>, and a
  solver that returns a bijection of minimal total cost on the cost matrix, the matcher
  returns \<open>pred_lab\<close> relabeled through a bijection \<open>rho\<close> of \<open>{0..nclass-1}\<close>, the inverse of
  the solver's assignment, and the disagreement rate of the result against \<open>true_lab\<close> is at
  most that of \<open>sigma(pred_lab)\<close>, for every bijection \<open>sigma\<close> of \<open>{0..nclass-1}\<close>. With at
  least one sample these rates are what the 0/1 loss returns. The true labels need no
  restriction here.
\<close>

theorem kuhn_munkres_optimal:
  assumes "length pred_lab = length true_lab"
    and "set pred_lab \<subseteq> label_universe (nclass_of true_lab)"
    and "optimal_assignment (cost_matrix true_lab pred_lab) (lsa (cost_matrix true_lab pred_lab))"
    and "bij_betw sigma (label_universe (nclass_of true_lab)) (label_universe (nclass_of true_lab))"
  shows "\<exists>rho.
           bij_betw rho (label_universe (nclass_of true_lab)) (label_universe (nclass_of true_lab)) \<and>
           (\<forall>i < nclass_of true_lab. rho (int (lsa (cost_matrix true_lab pred_lab) ! i)) = int i) \<and>
           kuhn_munkres_algorithm lsa (Ndarray true_lab) (Ndarray pred_lab)
             = Inr (map rho pred_lab) \<and>
           disagreement_rate true_lab (map rho pred_lab)
             \<le> disagreement_rate true_lab (map sigma pred_lab) \<and>
           (true_lab \<noteq> [] \<longrightarrow>
              zero_one_loss true_lab (map rho pred_lab)
                = Inr (Finite (disagreement_rate true_lab (map rho pred_lab))) \<and>
              zero_one_loss true_lab (map sigma pred_lab)
                = Inr (Finite (disagreement_rate true_lab (map sigma pred_lab))))"
proof -
  let ?c = "lsa (cost_matrix true_lab pred_lab)"
  have c: "?c \<in> set (assignments (nclass_of true_lab))"
    using assms(3) by (rule optimal_is_assignment)
  have "bij_betw (inverse_label ?c) (label_universe (nclass_of true_lab))
          (label_universe (nclass_of true_lab))"
    using c by (rule inverse_label_bij)
  moreover have "\<forall>i < nclass_of true_lab. inverse_label ?c (int (?c ! i)) = int i"
    using c by (simp add: inverse_label_nth)
  moreover have "kuhn_munkres_algorithm lsa (Ndarray true_lab) (Ndarray pred_lab)
        = Inr (map (inverse_label ?c) pred_lab)"
    and "disagreement_rate true_lab (map (inverse_label ?c) pred_lab)
        \<le> disagreement_rate true_lab (map sigma pred_lab)"
    using kuhn_loss_bij [where lsa = lsa, OF assms] by simp_all
  moreover have "zero_one_loss true_lab (map f pred_lab)
        = Inr (Finite (disagreement_rate true_lab (map f pred_lab)))" if "true_lab \<noteq> []" for f
    using that assms(1) by (simp add: zero_one_loss_eq)
  ultimately show ?thesis by blast
qed

text \<open>
  The labelings \<open>[0,0,1,1]\<close> and \<open>[1,1,0,0]\<close> with the identity as \<open>sigma\<close>: the matcher
  returns \<open>[0,0,1,1]\<close>, a relabeling of the predictions with rate 0.
\<close>

theorem kuhn_munkres_optimal_witness:
  "length [1, 1, 0, 0 :: int] = length [0, 0, 1, 1 :: int] \<and>
   set [1, 1, 0, 0] \<subseteq> label_universe (nclass_of [0, 0, 1, 1]) \<and>
   optimal_assignment (cost_matrix [0, 0, 1, 1] [1, 1, 0, 0])
     (brute_force_lsa (cost_matrix [0, 0, 1, 1] [1, 1, 0, 0])) \<and>
   bij_betw id (label_universe (nclass_of [0, 0, 1, 1])) (label_universe (nclass_of [0, 0, 1, 1])) \<and>
   [0, 0, 1, 1] \<noteq> ([] :: int list) \<and>
   (\<exists>rho.
      bij_betw rho (label_universe (nclass_of [0, 0, 1, 1]))
        (label_universe (nclass_of [0, 0, 1, 1])) \<and>
      kuhn_munkres_algorithm brute_force_lsa (Ndarray [0, 0, 1, 1]) (Ndarray [1, 1, 0, 0])
        = Inr (map rho [1, 1, 0, 0]) \<and>
      disagreement_rate [0, 0, 1, 1] (map rho [1, 1, 0, 0])
        \<le> disagreement_rate [0, 0, 1, 1] (map id [1, 1, 0, 0]) \<and>
      zero_one_loss [0, 0, 1, 1] (map rho [1, 1, 0, 0])
        = Inr (Finite (disagreement_rate [0, 0, 1, 1] (map rho [1, 1, 0, 0]))))"
proof -
  have h1: "length [1, 1, 0, 0 :: int] = length [0, 0, 1, 1 :: int]" by simp
  have h3: "set [1, 1, 0, 0] \<subseteq> label_universe (nclass_of [0, 0, 1, 1])"
    by (simp add: nclass_example universe_two)
  have h5: "bij_betw id (label_universe (nclass_of [0, 0, 1, 1]))
              (label_universe (nclass_of [0, 0, 1, 1]))"
    by simp
  have h6: "[0, 0, 1, 1] \<noteq> ([] :: int list)" by simp
  show ?thesis
    using h1 h3 optimal_example h5 h6
      kuhn_munkres_optimal [where lsa = brute_force_lsa, OF h1 h3 optimal_example h5]
    by blast
qed

text \<open>
  Claim C10. When \<open>pred_lab\<close> holds a label outside \<open>{0..nclass-1}\<close>, the matcher returns no
  relabeled sequence: the index lookup fails with a ValueError, not with the TypeError of
  the input check. The solver only has to return a bijection of \<open>{0..nclass-1}\<close>.
\<close>

theorem kuhn_munkres_out_of_universe:
  assumes "\<exists>x \<in> set pred_lab. x \<notin> label_universe (nclass_of true_lab)"
    and "is_assignment (nclass_of true_lab) (lsa (cost_matrix true_lab pred_lab))"
  shows "kuhn_munkres_algorithm lsa (Ndarray true_lab) (Ndarray pred_lab) = Inl ValueError"
proof -
  have "int ` set (lsa (cost_matrix true_lab pred_lab)) = label_universe (nclass_of true_lab)"
    using assms(2) by (simp add: is_assignment_def assignment_image)
  then have "\<exists>x \<in> set pred_lab. x \<notin> int ` set (lsa (cost_matrix true_lab pred_lab))"
    using assms(1) by simp
  then show ?thesis by (simp add: kuhn_ndarray relabel_fail)
qed

text \<open>A predicted label 2 with two true classes.\<close>

theorem kuhn_munkres_out_of_universe_witness:
  "(\<exists>x \<in> set [0, 1, 2, 2]. x \<notin> label_universe (nclass_of [0, 0, 1, 1])) \<and>
   is_assignment (nclass_of [0, 0, 1, 1]) (brute_force_lsa (cost_matrix [0, 0, 1, 1] [0, 1, 2, 2])) \<and>
   kuhn_munkres_algorithm brute_force_lsa (Ndarray [0, 0, 1, 1]) (Ndarray [0, 1, 2, 2])
     = Inl ValueError"
proof -
  have h1: "\<exists>x \<in> set [0, 1, 2, 2]. x \<notin> label_universe (nclass_of [0, 0, 1, 1])"
    by (simp add: nclass_example universe_two)
  have h2: "is_assignment (nclass_of [0, 0, 1, 1])
              (brute_force_lsa (cost_matrix [0, 0, 1, 1] [0, 1, 2, 2]))"
    by code_simp
  show ?thesis
    using h1 h2 kuhn_munkres_out_of_universe [where lsa = brute_force_lsa, OF h1 h2] by blast
qed



text \<open>
  Claim C4, as stated for every labeling and every bijective relabeling, fails: with one
  true class the matcher returns on the predictions \<open>[0,0]\<close> and raises on \<open>[1,1]\<close>, their
  image under the relabeling that swaps 0 and 1.
\<close>

theorem relabeling_invariance_counterexample:
  "kuhn_munkres_algorithm brute_force_lsa (Ndarray [0, 0]) (Ndarray [0, 0]) = Inr [0, 0] \<and>
   kuhn_munkres_algorithm brute_force_lsa (Ndarray [0, 0]) (Ndarray [1, 1]) = Inl ValueError"
  by code_simp

text \<open>
  Claim C4, amended. For labelings of equal length with predicted labels in
  \<open>{0..nclass-1}\<close>, a bijection \<open>sigma\<close> of \<open>{0..nclass-1}\<close> and a solver that returns an optimal
  assignment on both cost matrices, the matcher returns on \<open>pred_lab\<close> and on
  \<open>sigma(pred_lab)\<close>, and the two results have the same disagreement rate against
  \<open>true_lab\<close>.
\<close>

theorem kuhn_relabeling_invariant:
  assumes len: "length p = length t"
    and univ: "set p \<subseteq> label_universe (nclass_of t)"
    and bij: "bij_betw sigma (label_universe (nclass_of t)) (label_universe (nclass_of t))"
    and opt: "optimal_assignment (cost_matrix t p) (lsa (cost_matrix t p))"
    and opt': "optimal_assignment (cost_matrix t (map sigma p)) (lsa (cost_matrix t (map sigma p)))"
  shows "\<exists>r1 r2.
           kuhn_munkres_algorithm lsa (Ndarray t) (Ndarray (map sigma p)) = Inr r1 \<and>
           kuhn_munkres_algorithm lsa (Ndarray t) (Ndarray p) = Inr r2 \<and>
           zero_one_loss t r1 = zero_one_loss t r2"
proof -
  let ?U = "label_universe (nclass_of t)"
  let ?c = "lsa (cost_matrix t p)" and ?c' = "lsa (cost_matrix t (map sigma p))"
  let ?r2 = "map (inverse_label ?c) p" and ?r1 = "map (inverse_label ?c') (map sigma p)"
  have len': "length (map sigma p) = length t" using len by simp
  have univ': "set (map sigma p) \<subseteq> ?U"
    using univ bij by (auto simp: bij_betw_def)
  have b1: "bij_betw (inverse_label ?c' \<circ> sigma) ?U ?U"
    using bij inverse_label_bij [OF optimal_is_assignment [OF opt']] by (rule bij_betw_trans)
  have b2: "bij_betw (inverse_label ?c \<circ> inv_into ?U sigma) ?U ?U"
    using bij_betw_inv_into [OF bij] inverse_label_bij [OF optimal_is_assignment [OF opt]]
    by (rule bij_betw_trans)
  have k2: "kuhn_munkres_algorithm lsa (Ndarray t) (Ndarray p) = Inr ?r2"
    and le2: "disagreement_rate t ?r2 \<le> disagreement_rate t (map (inverse_label ?c' \<circ> sigma) p)"
    using kuhn_loss_bij [where lsa = lsa, OF len univ opt b1] by simp_all
  have k1: "kuhn_munkres_algorithm lsa (Ndarray t) (Ndarray (map sigma p)) = Inr ?r1"
    and le1: "disagreement_rate t ?r1
        \<le> disagreement_rate t (map (inverse_label ?c \<circ> inv_into ?U sigma) (map sigma p))"
    using kuhn_loss_bij [where lsa = lsa, OF len' univ' opt' b2] by simp_all
  have inv: "inv_into ?U sigma (sigma x) = x" if "x \<in> set p" for x
    using that univ bij by (auto simp: bij_betw_inv_into_left)
  have eq2: "map (inverse_label ?c \<circ> inv_into ?U sigma) (map sigma p) = ?r2"
    unfolding map_map by (rule map_cong) (simp_all add: inv)
  have eq1: "map (inverse_label ?c' \<circ> sigma) p = ?r1"
    by (simp only: map_map)
  have "disagreement_rate t ?r1 \<le> disagreement_rate t ?r2" using le1 by (simp only: eq2)
  moreover have "disagreement_rate t ?r2 \<le> disagreement_rate t ?r1" using le2 by (simp only: eq1)
  ultimately have "disagreement_rate t ?r1 = disagreement_rate t ?r2" by (rule antisym)
  then have "zero_one_loss t ?r1 = zero_one_loss t ?r2"
    using len by (simp add: zero_one_loss_eq)
  with k1 k2 show ?thesis by blast
qed

text \<open>The relabeling that swaps 0 and 1, on \<open>[0,0,1,1]\<close> and \<open>[1,1,0,0]\<close>.\<close>

theorem kuhn_relabeling_invariant_witness:
  "length [1, 1, 0, 0 :: int] = length [0, 0, 1, 1 :: int] \<and>
   set [1, 1, 0, 0] \<subseteq> label_universe (nclass_of [0, 0, 1, 1]) \<and>
   bij_betw (\<lambda>x. 1 - x) (label_universe (nclass_of [0, 0, 1, 1]))
     (label_universe (nclass_of [0, 0, 1, 1])) \<and>
   (\<exists>r1 r2.
      kuhn_munkres_algorithm brute_force_lsa (Ndarray [0, 0, 1, 1])
        (Ndarray (map (\<lambda>x. 1 - x) [1, 1, 0, 0])) = Inr r1 \<and>
      kuhn_munkres_algorithm brute_force_lsa (Ndarray [0, 0, 1, 1]) (Ndarray [1, 1, 0, 0]) = Inr r2 \<and>
      zero_one_loss [0, 0, 1, 1] r1 = zero_one_loss [0, 0, 1, 1] r2)"
proof -
  have h1: "length [1, 1, 0, 0 :: int] = length [0, 0, 1, 1 :: int]" by simp
  have h2: "set [1, 1, 0, 0] \<subseteq> label_universe (nclass_of [0, 0, 1, 1])"
    by (simp add: nclass_example universe_two)
  have h3: "bij_betw (\<lambda>x. 1 - x) (label_universe (nclass_of [0, 0, 1, 1]))
     (label_universe (nclass_of [0, 0, 1, 1]))"
    by (simp only: nclass_example swap_bij)
  show ?thesis
    using h1 h2 h3
      kuhn_relabeling_invariant [where lsa = brute_force_lsa,
        OF h1 h2 h3 optimal_example optimal_example_swapped]
    by blast
qed

text \<open>
  Claim C6, as stated for every pair of identical labelings, fails: on the labeling \<open>[1]\<close>
  there is one class, the assignment list is \<open>[0]\<close>, and the lookup of label 1 raises.
\<close>

theorem identical_labelings_counterexample:
  "kuhn_munkres_algorithm brute_force_lsa (Ndarray [1]) (Ndarray [1]) = Inl ValueError"
  by code_simp

text \<open>
  Claim C6, amended. For identical labelings whose labels lie in \<open>{0..nclass-1}\<close>, and a
  solver that returns an optimal assignment, the matcher returns the input labeling.
\<close>

theorem kuhn_identical:
  assumes univ: "set t \<subseteq> label_universe (nclass_of t)"
    and opt: "optimal_assignment (cost_matrix t t) (lsa (cost_matrix t t))"
  shows "kuhn_munkres_algorithm lsa (Ndarray t) (Ndarray t) = Inr t"
proof -
  let ?r = "map (inverse_label (lsa (cost_matrix t t))) t"
  have b: "bij_betw id (label_universe (nclass_of t)) (label_universe (nclass_of t))" by simp
  have k: "kuhn_munkres_algorithm lsa (Ndarray t) (Ndarray t) = Inr ?r"
    and le: "disagreement_rate t ?r \<le> disagreement_rate t (map id t)"
    using kuhn_loss_bij [where lsa = lsa, OF _ univ opt b] by simp_all
  have "disagreement_rate t ?r = 0"
    using le disagreement_rate_nonneg [of t ?r] by (simp add: disagreement_rate_self)
  then have "?r = t" by (rule disagreement_rate_zero) simp
  with k show ?thesis by simp
qed

text \<open>The labeling \<open>[0,0,1,1]\<close> matched with itself.\<close>

theorem kuhn_identical_witness:
  "set [0, 0, 1, 1] \<subseteq> label_universe (nclass_of [0, 0, 1, 1]) \<and>
   optimal_assignment (cost_matrix [0, 0, 1, 1] [0, 0, 1, 1])
     (brute_force_lsa (cost_matrix [0, 0, 1, 1] [0, 0, 1, 1])) \<and>
   kuhn_munkres_algorithm brute_force_lsa (Ndarray [0, 0, 1, 1]) (Ndarray [0, 0, 1, 1])
     = Inr [0, 0, 1, 1]"
proof -
  have h: "set [0, 0, 1, 1] \<subseteq> label_universe (nclass_of [0, 0, 1, 1])"
    by (simp add: nclass_example universe_two)
  show ?thesis
    using h optimal_example_identical
      kuhn_identical [where lsa = brute_force_lsa, OF h optimal_example_identical]
    by blast
qed

text \<open>
  Claim C8 fails: on two empty arrays the matcher returns the empty labeling and raises
  nothing.
\<close>

theorem zero_samples_counterexample:
  "kuhn_munkres_algorithm brute_force_lsa (Ndarray []) (Ndarray []) = Inr []"
  by code_simp

text \<open>
  Claim C8, amended. With zero samples in \<open>true_lab\<close> (hence zero distinct labels) there is
  no check of the input: the matcher returns the empty labeling when \<open>pred_lab\<close> is empty
  too, and otherwise fails in the index lookup with a ValueError. The solver only has to
  return the empty assignment on the empty matrix.
\<close>

theorem kuhn_zero_samples:
  assumes "is_assignment 0 (lsa (cost_matrix [] p))"
  shows "kuhn_munkres_algorithm lsa (Ndarray []) (Ndarray p) =
           (if p = [] then Inr [] else Inl ValueError)"
proof -
  have "lsa (cost_matrix [] p) = []"
    using assms by (simp add: is_assignment_def set_assignments)
  then show ?thesis by (cases p) (simp_all add: kuhn_ndarray)
qed

text \<open>No true labels, with one predicted label and with none.\<close>

theorem kuhn_zero_samples_witness:
  "is_assignment 0 (brute_force_lsa (cost_matrix [] [3])) \<and>
   kuhn_munkres_algorithm brute_force_lsa (Ndarray []) (Ndarray [3]) = Inl ValueError \<and>
   is_assignment 0 (brute_force_lsa (cost_matrix [] [])) \<and>
   kuhn_munkres_algorithm brute_force_lsa (Ndarray []) (Ndarray []) = Inr []"
proof -
  have h1: "is_assignment 0 (brute_force_lsa (cost_matrix [] [3]))" by code_simp
  have h2: "is_assignment 0 (brute_force_lsa (cost_matrix [] []))" by code_simp
  show ?thesis
    using h1 h2 kuhn_zero_samples [where lsa = brute_force_lsa, OF h1]
      kuhn_zero_samples [where lsa = brute_force_lsa, OF h2]
    by simp
qed



text \<open>
  Claim C3, as stated for every test set and fitted model, fails: when the model predicts
  label 2 and the fresh clustering has the two labels 0 and 1, the matcher raises and
  \<open>test\<close> returns no pair.
\<close>

theorem test_counterexample:
  "test zero_one_loss brute_force_lsa lookup_caps example_validator 2 [2, 2] = Inl ValueError"
  by code_simp

text \<open>
  Claim C3, amended. Whenever the label matcher returns an alignment of the classifier's
  predictions on \<open>test_data\<close> to the labels of a fresh clustering of \<open>test_data\<close>, \<open>test\<close>
  hands the clustering labels and the aligned predictions to the 0/1 loss and returns that
  loss together with the raw clustering labels, leaving the classifier as it was. For a loss
  that meets its contract: with one prediction per clustering label and at least one sample
  the first component is the fraction of samples whose clustering label differs from the
  aligned prediction, and predictions of another length make the loss raise a ValueError.
  When the matcher raises, \<open>test\<close> raises the same error.
\<close>

theorem test_result:
  assumes "clust = fst (fit_predict caps (clust_method self) test_data)"
    and "preds = predict caps fit_model test_data"
  shows "(kuhn_munkres_algorithm lsa (Ndarray clust) (Ndarray preds) = Inr aligned \<longrightarrow>
            returned (test loss lsa caps self test_data fit_model) =
              (case loss clust aligned of
                 Inl e \<Rightarrow> Inl e
               | Inr misclass \<Rightarrow> Inr (misclass, clust))) \<and>
         (kuhn_munkres_algorithm lsa (Ndarray clust) (Ndarray preds) = Inr aligned \<and>
          zero_one_loss_contract loss \<and> length preds = length clust \<and> clust \<noteq> [] \<longrightarrow>
            returned (test loss lsa caps self test_data fit_model) =
              Inr (Finite (of_nat (card {s. s < length clust \<and> clust ! s \<noteq> aligned ! s})
                             / of_nat (length clust)),
                   clust)) \<and>
         (kuhn_munkres_algorithm lsa (Ndarray clust) (Ndarray preds) = Inr aligned \<and>
          zero_one_loss_contract loss \<and> length preds \<noteq> length clust \<longrightarrow>
            test loss lsa caps self test_data fit_model = Inl ValueError) \<and>
         (kuhn_munkres_algorithm lsa (Ndarray clust) (Ndarray preds) = Inl e \<longrightarrow>
            test loss lsa caps self test_data fit_model = Inl e) \<and>
         (test loss lsa caps self test_data fit_model = Inr (v, self') \<longrightarrow>
            class_method self' = class_method self)"
proof (intro conjI impI)
  show "returned (test loss lsa caps self test_data fit_model) =
              (case loss clust aligned of
                 Inl e \<Rightarrow> Inl e
               | Inr misclass \<Rightarrow> Inr (misclass, clust))"
    if "kuhn_munkres_algorithm lsa (Ndarray clust) (Ndarray preds) = Inr aligned"
    using that
    by (simp add: assms test_def returned_def Let_def case_prod_unfold split: sum.splits)
  show "returned (test loss lsa caps self test_data fit_model) =
              Inr (Finite (of_nat (card {s. s < length clust \<and> clust ! s \<noteq> aligned ! s})
                             / of_nat (length clust)),
                   clust)"
    if h: "kuhn_munkres_algorithm lsa (Ndarray clust) (Ndarray preds) = Inr aligned \<and>
          zero_one_loss_contract loss \<and> length preds = length clust \<and> clust \<noteq> []"
  proof -
    have l: "length aligned = length clust"
      using h kuhn_ndarray_length [of lsa clust preds aligned] by simp
    show ?thesis
      using h l
      by (simp add: assms test_def returned_def Let_def case_prod_unfold contract_equal
          disagreement_rate_card)
  qed
  show "test loss lsa caps self test_data fit_model = Inl ValueError"
    if h: "kuhn_munkres_algorithm lsa (Ndarray clust) (Ndarray preds) = Inr aligned \<and>
          zero_one_loss_contract loss \<and> length preds \<noteq> length clust"
  proof -
    have l: "length aligned \<noteq> length clust"
      using h kuhn_ndarray_length [of lsa clust preds aligned] by simp
    show ?thesis
      using h l
      by (simp add: assms test_def Let_def case_prod_unfold contract_unequal)
  qed
  show "test loss lsa caps self test_data fit_model = Inl e"
    if "kuhn_munkres_algorithm lsa (Ndarray clust) (Ndarray preds) = Inl e"
    using that by (simp add: assms test_def Let_def case_prod_unfold)
  show "class_method self' = class_method self"
    if "test loss lsa caps self test_data fit_model = Inr (v, self')"
    using that by (auto simp: test_def Let_def case_prod_unfold split: sum.splits)
qed

text \<open>Four samples, a model that predicts \<open>[1,0,1,1]\<close>: the rate is one quarter.\<close>

theorem test_result_witness:
  "[0, 1, 0, 1] = fst (fit_predict lookup_caps (clust_method example_validator) 4) \<and>
   [1, 0, 1, 1] = predict lookup_caps [1, 0, 1, 1] 4 \<and>
   kuhn_munkres_algorithm brute_force_lsa (Ndarray [0, 1, 0, 1]) (Ndarray [1, 0, 1, 1])
     = Inr [0, 1, 0, 0] \<and>
   zero_one_loss_contract zero_one_loss \<and>
   length [1, 0, 1, 1 :: int] = length [0, 1, 0, 1 :: int] \<and> [0, 1, 0, 1] \<noteq> ([] :: int list) \<and>
   returned (test zero_one_loss brute_force_lsa lookup_caps example_validator 4 [1, 0, 1, 1]) =
     Inr (Finite (of_nat (card {s. s < length [0, 1, 0, 1 :: int] \<and>
                                   [0, 1, 0, 1 :: int] ! s \<noteq> [0, 1, 0, 0] ! s})
                   / of_nat (length [0, 1, 0, 1 :: int])),
          [0, 1, 0, 1]) \<and>
   returned (test zero_one_loss brute_force_lsa lookup_caps example_validator 4 [1, 0, 1, 1]) =
     Inr (Finite (1 / 4), [0, 1, 0, 1])"
proof -
  have h1: "[0, 1, 0, 1] = fst (fit_predict lookup_caps (clust_method example_validator) 4)"
    by code_simp
  have h2: "[1, 0, 1, 1] = predict lookup_caps [1, 0, 1, 1] 4"
    by code_simp
  have h3: "kuhn_munkres_algorithm brute_force_lsa (Ndarray [0, 1, 0, 1]) (Ndarray [1, 0, 1, 1])
     = Inr [0, 1, 0, 0]"
    by code_simp
  have h4: "length [1, 0, 1, 1 :: int] = length [0, 1, 0, 1 :: int] \<and> [0, 1, 0, 1] \<noteq> ([] :: int list)"
    by simp
  have v: "returned (test zero_one_loss brute_force_lsa lookup_caps example_validator 4
             [1, 0, 1, 1]) = Inr (Finite (1 / 4), [0, 1, 0, 1])"
    by code_simp
  show ?thesis
    using h1 h2 h3 h4 v zero_one_loss_meets_contract
      test_result [where loss = zero_one_loss and lsa = brute_force_lsa
        and aligned = "[0, 1, 0, 0]", OF h1 h2]
    by blast
qed



end
